theory Spec2Isabelle
  imports Main "HOL-Library.Word"
begin

section \<open>Python values used by \<^verbatim>\<open>scripts/deploy_token.py\<close>\<close>

text \<open>
  A Python \<^verbatim>\<open>str\<close> is a sequence of Unicode code points, a \<^verbatim>\<open>bytes\<close> object a
  sequence of octets. Python's code points are below \<^verbatim>\<open>0x110000\<close>; nothing below depends
  on that bound. The words the script emits are themselves \<^verbatim>\<open>str\<close> objects, so one type
  serves for the configuration's texts, its addresses and the emitted words.
\<close>

type_synonym py_str = "nat list"
type_synonym byte = "8 word"
type_synonym py_bytes = "byte list"

datatype py_error = UnicodeEncodeError | ValueError

text \<open>A string literal of the script, as the code points of its (ASCII) characters.\<close>

definition py_lit :: "string \<Rightarrow> py_str" where
  "py_lit cs = map of_char cs"

subsection \<open>\<^verbatim>\<open>str.encode('utf-8')\<close>\<close>

text \<open>
  The strict UTF-8 codec: one to four octets per code point; a surrogate code point
  (\<^verbatim>\<open>U+D800\<close> to \<^verbatim>\<open>U+DFFF\<close>) raises \<^verbatim>\<open>UnicodeEncodeError\<close>.
\<close>

definition utf8_char :: "nat \<Rightarrow> py_error + py_bytes" where
  "utf8_char c =
     (if c < 0x80 then Inr [of_nat c]
      else if c < 0x800 then Inr [of_nat (0xC0 + c div 64), of_nat (0x80 + c mod 64)]
      else if c < 0x10000 then
        (if 0xD800 \<le> c \<and> c \<le> 0xDFFF then Inl UnicodeEncodeError
         else Inr [of_nat (0xE0 + c div 4096), of_nat (0x80 + (c div 64) mod 64),
                   of_nat (0x80 + c mod 64)])
      else Inr [of_nat (0xF0 + c div 262144), of_nat (0x80 + (c div 4096) mod 64),
                of_nat (0x80 + (c div 64) mod 64), of_nat (0x80 + c mod 64)])"

fun utf8_encode :: "py_str \<Rightarrow> py_error + py_bytes" where
  "utf8_encode [] = Inr []"
| "utf8_encode (c # cs) =
     (case utf8_char c of
        Inl e \<Rightarrow> Inl e
      | Inr bs \<Rightarrow> (case utf8_encode cs of Inl e \<Rightarrow> Inl e | Inr r \<Rightarrow> Inr (bs @ r)))"

subsection \<open>\<^verbatim>\<open>bytes.hex()\<close>\<close>

text \<open>Two lower-case hexadecimal digits per octet: \<^verbatim>\<open>'0'\<close> is 48, \<^verbatim>\<open>'a'\<close> is 97.\<close>

definition hex_digit :: "nat \<Rightarrow> nat" where
  "hex_digit d = (if d < 10 then 48 + d else 87 + d)"

definition hex_byte :: "byte \<Rightarrow> py_str" where
  "hex_byte b = [hex_digit (unat b div 16), hex_digit (unat b mod 16)]"

definition bytes_hex :: "py_bytes \<Rightarrow> py_str" where
  "bytes_hex bs = concat (map hex_byte bs)"

subsection \<open>\<^verbatim>\<open>str(n)\<close> on integers\<close>

text \<open>The decimal numeral, without leading zeros, with a minus sign for a negative value.\<close>

fun str_nat :: "nat \<Rightarrow> py_str" where
  "str_nat n = (if n < 10 then [48 + n] else str_nat (n div 10) @ [48 + n mod 10])"

declare str_nat.simps [simp del]

definition str_int :: "int \<Rightarrow> py_str" where
  "str_int i = (if i < 0 then 45 # str_nat (nat (- i)) else str_nat (nat i))"

subsection \<open>Slices\<close>

text \<open>\<^verbatim>\<open>b[lo:hi]\<close> for \<^verbatim>\<open>0 <= lo <= hi\<close>: both ends are clipped to the length.\<close>

definition py_slice :: "'a list \<Rightarrow> nat \<Rightarrow> nat \<Rightarrow> 'a list" where
  "py_slice xs lo hi = take (hi - lo) (drop lo xs)"

section \<open>The script\<close>

record DeploymentConfig =
  name :: py_str
  symbol :: py_str
  base_uri :: py_str
  royalty_receiver :: py_str
  royalty_fraction :: int
  game_registry_address :: "py_str option"
  event_relayer_address :: "py_str option"
  class_hash :: py_str
  udc_address :: py_str
  profile :: py_str
  salt :: int
  unique :: bool

subsection \<open>\<^verbatim>\<open>encode_bytearray\<close>\<close>

text \<open>
  The loop over \<^verbatim>\<open>range(num_full_words)\<close> appends one word to \<^verbatim>\<open>result\<close> per
  iteration; \<open>full_word_step\<close> is its body.
\<close>

definition full_word_step :: "py_bytes \<Rightarrow> py_str list \<Rightarrow> nat \<Rightarrow> py_str list" where
  "full_word_step s_bytes result i =
     (let word_bytes = py_slice s_bytes (i * 31) ((i + 1) * 31);
          word_hex = py_lit ''0x'' @ bytes_hex word_bytes
      in result @ [word_hex])"

definition encode_bytearray :: "py_str \<Rightarrow> py_error + py_str list" where
  "encode_bytearray s =
     (case utf8_encode s of
        Inl e \<Rightarrow> Inl e
      | Inr s_bytes \<Rightarrow>
          (let num_full_words = length s_bytes div 31;
               pending_len = length s_bytes mod 31;
               result = [str_int (int num_full_words)];
               result = foldl (full_word_step s_bytes) result [0..<num_full_words]
           in if pending_len > 0 then
                (let pending_bytes = drop (num_full_words * 31) s_bytes;
                     pending_hex = py_lit ''0x'' @ bytes_hex pending_bytes
                 in Inr (result @ [pending_hex] @ [str_int (int pending_len)]))
              else Inr (result @ [py_lit ''0''] @ [py_lit ''0''])))"

subsection \<open>\<^verbatim>\<open>build_constructor_calldata\<close>\<close>

text \<open>
  The two \<^verbatim>\<open>if config.x_address:\<close> tests are truth tests on an \<^verbatim>\<open>Optional[str]\<close>:
  \<^verbatim>\<open>None\<close> and the empty string are false, every other string is true.
\<close>

definition truthy :: "py_str option \<Rightarrow> bool" where
  "truthy a = (case a of None \<Rightarrow> False | Some v \<Rightarrow> v \<noteq> [])"

definition build_constructor_calldata ::
  "DeploymentConfig \<Rightarrow> py_error + (int \<times> py_str list)" where
  "build_constructor_calldata config =
     (case encode_bytearray (name config) of
        Inl e \<Rightarrow> Inl e
      | Inr name_encoded \<Rightarrow>
     (case encode_bytearray (symbol config) of
        Inl e \<Rightarrow> Inl e
      | Inr symbol_encoded \<Rightarrow>
     (case encode_bytearray (base_uri config) of
        Inl e \<Rightarrow> Inl e
      | Inr base_uri_encoded \<Rightarrow>
          (let calldata = [];
               calldata = calldata @ name_encoded;
               calldata = calldata @ symbol_encoded;
               calldata = calldata @ base_uri_encoded;
               calldata = calldata @ [royalty_receiver config];
               calldata = calldata @ [str_int (royalty_fraction config)];
               calldata =
                 (if truthy (game_registry_address config)
                  then (calldata @ [py_lit ''0'']) @ [the (game_registry_address config)]
                  else calldata @ [py_lit ''1'']);
               calldata =
                 (if truthy (event_relayer_address config)
                  then (calldata @ [py_lit ''0'']) @ [the (event_relayer_address config)]
                  else calldata @ [py_lit ''1''])
           in Inr (int (length calldata), calldata)))))"

subsection \<open>\<^verbatim>\<open>deploy_via_udc\<close>: the dispatcher's argument list\<close>

text \<open>
  The first statements of \<^verbatim>\<open>deploy_via_udc\<close> build the list \<^verbatim>\<open>udc_calldata\<close>; the rest
  of the function hands it to an external process. \<open>udc_calldata\<close> is the value of that
  list when the \<^verbatim>\<open>sncast\<close> command is assembled.
\<close>

definition udc_calldata :: "DeploymentConfig \<Rightarrow> py_error + py_str list" where
  "udc_calldata config =
     (case build_constructor_calldata config of
        Inl e \<Rightarrow> Inl e
      | Inr (calldata_len, constructor_calldata) \<Rightarrow>
          Inr ([class_hash config,
                str_int (salt config),
                (if unique config then py_lit ''1'' else py_lit ''0''),
                str_int calldata_len] @ constructor_calldata))"

section \<open>The integer conversion limit\<close>

text \<open>
  From CPython 3.11 on, \<^verbatim>\<open>str\<close> of an integer raises \<^verbatim>\<open>ValueError\<close> when the decimal
  numeral has more digits, the sign not counted, than the interpreter-wide setting
  \<^verbatim>\<open>int_max_str_digits\<close> allows: 4300 by default, and no bound when the setting is 0
  (\<^verbatim>\<open>sys.set_int_max_str_digits\<close>, \<^verbatim>\<open>PYTHONINTMAXSTRDIGITS\<close>). The functions of the
  section before are the script with the limit off. Here the limit is a parameter, and it
  applies where the script prints an integer of the configuration: \<^verbatim>\<open>royalty_fraction\<close> in
  \<^verbatim>\<open>build_constructor_calldata\<close>, \<^verbatim>\<open>salt\<close> in \<^verbatim>\<open>deploy_via_udc\<close>. The other integers
  printed are lengths of Python sequences, below \<^verbatim>\<open>2 ** 63\<close>, which no admissible limit
  (0, or 640 and above) refuses.
\<close>

definition decimal_digits :: "int \<Rightarrow> nat" where
  "decimal_digits i = length (str_nat (nat \<bar>i\<bar>))"

definition str_limited :: "nat \<Rightarrow> int \<Rightarrow> py_error + py_str" where
  "str_limited max_digits i =
     (if 0 < max_digits \<and> max_digits < decimal_digits i then Inl ValueError
      else Inr (str_int i))"

definition build_constructor_calldata_limited ::
  "nat \<Rightarrow> DeploymentConfig \<Rightarrow> py_error + (int \<times> py_str list)" where
  "build_constructor_calldata_limited max_digits config =
     (case encode_bytearray (name config) of
        Inl e \<Rightarrow> Inl e
      | Inr name_encoded \<Rightarrow>
     (case encode_bytearray (symbol config) of
        Inl e \<Rightarrow> Inl e
      | Inr symbol_encoded \<Rightarrow>
     (case encode_bytearray (base_uri config) of
        Inl e \<Rightarrow> Inl e
      | Inr base_uri_encoded \<Rightarrow>
          (let calldata = [];
               calldata = calldata @ name_encoded;
               calldata = calldata @ symbol_encoded;
               calldata = calldata @ base_uri_encoded;
               calldata = calldata @ [royalty_receiver config]
           in case str_limited max_digits (royalty_fraction config) of
                Inl e \<Rightarrow> Inl e
              | Inr fraction_word \<Rightarrow>
                  (let calldata = calldata @ [fraction_word];
                       calldata =
                         (if truthy (game_registry_address config)
                          then (calldata @ [py_lit ''0''])
                               @ [the (game_registry_address config)]
                          else calldata @ [py_lit ''1'']);
                       calldata =
                         (if truthy (event_relayer_address config)
                          then (calldata @ [py_lit ''0''])
                               @ [the (event_relayer_address config)]
                          else calldata @ [py_lit ''1''])
                   in Inr (int (length calldata), calldata))))))"

definition udc_calldata_limited :: "nat \<Rightarrow> DeploymentConfig \<Rightarrow> py_error + py_str list" where
  "udc_calldata_limited max_digits config =
     (case build_constructor_calldata_limited max_digits config of
        Inl e \<Rightarrow> Inl e
      | Inr (calldata_len, constructor_calldata) \<Rightarrow>
          (case str_limited max_digits (salt config) of
             Inl e \<Rightarrow> Inl e
           | Inr salt_word \<Rightarrow>
               Inr ([class_hash config,
                     salt_word,
                     (if unique config then py_lit ''1'' else py_lit ''0''),
                     str_int calldata_len] @ constructor_calldata)))"

section \<open>What the emitted words mean\<close>

text \<open>
  The specification speaks of the words as integers and of decoding an encoded text. The
  definitions of this section follow its wording; they are not part of the script.
\<close>

subsection \<open>The integer a word denotes\<close>

text \<open>
  A word is a decimal numeral, or a hexadecimal numeral after the prefix \<^verbatim>\<open>0x\<close>;
  anything else denotes no integer.
\<close>

definition dec_digit_val :: "nat \<Rightarrow> nat option" where
  "dec_digit_val c = (if 48 \<le> c \<and> c \<le> 57 then Some (c - 48) else None)"

definition hex_digit_val :: "nat \<Rightarrow> nat option" where
  "hex_digit_val c =
     (if 48 \<le> c \<and> c \<le> 57 then Some (c - 48)
      else if 97 \<le> c \<and> c \<le> 102 then Some (c - 87)
      else None)"

fun parse_digits :: "nat \<Rightarrow> (nat \<Rightarrow> nat option) \<Rightarrow> nat \<Rightarrow> py_str \<Rightarrow> nat option" where
  "parse_digits base dv acc [] = Some acc"
| "parse_digits base dv acc (c # cs) =
     (case dv c of None \<Rightarrow> None | Some d \<Rightarrow> parse_digits base dv (acc * base + d) cs)"

definition word_value :: "py_str \<Rightarrow> nat option" where
  "word_value w =
     (if take 2 w = py_lit ''0x''
      then (if drop 2 w = [] then None else parse_digits 16 hex_digit_val 0 (drop 2 w))
      else (if w = [] then None else parse_digits 10 dec_digit_val 0 w))"

subsection \<open>Big-endian octets\<close>

text \<open>
  \<open>be_value\<close> is the big-endian integer value of a sequence of octets; \<open>to_bytes_be k v\<close>
  is the sequence of exactly \<open>k\<close> octets with value \<open>v\<close>, when \<open>v\<close> fits.
\<close>

definition be_value :: "py_bytes \<Rightarrow> nat" where
  "be_value bs = foldl (\<lambda>v b. v * 256 + unat b) 0 bs"

fun be_octets :: "nat \<Rightarrow> nat \<Rightarrow> py_bytes" where
  "be_octets 0 v = []"
| "be_octets (Suc k) v = be_octets k (v div 256) @ [of_nat (v mod 256)]"

definition to_bytes_be :: "nat \<Rightarrow> nat \<Rightarrow> py_bytes option" where
  "to_bytes_be k v = (if v < 256 ^ k then Some (be_octets k v) else None)"

subsection \<open>Decoding a serialized text\<close>

text \<open>
  The serialized form is \<^verbatim>\<open>[full_word_count, full_words..., pending_word, pending_length]\<close>.
  Decoding takes each full word as 31 big-endian octets and then \<^verbatim>\<open>pending_length\<close>
  octets from the pending word.
\<close>

fun decode_full_words :: "py_str list \<Rightarrow> py_bytes option" where
  "decode_full_words [] = Some []"
| "decode_full_words (w # ws) =
     (case word_value w of
        None \<Rightarrow> None
      | Some v \<Rightarrow>
          (case to_bytes_be 31 v of
             None \<Rightarrow> None
           | Some bs \<Rightarrow>
               (case decode_full_words ws of None \<Rightarrow> None | Some r \<Rightarrow> Some (bs @ r))))"

definition decode_bytearray :: "py_str list \<Rightarrow> py_bytes option" where
  "decode_bytearray ws =
     (case ws of
        [] \<Rightarrow> None
      | w0 # rest \<Rightarrow>
          (case word_value w0 of
             None \<Rightarrow> None
           | Some full_word_count \<Rightarrow>
               if length rest \<noteq> full_word_count + 2 then None
               else
                 (case (decode_full_words (take full_word_count rest),
                        word_value (rest ! full_word_count),
                        word_value (rest ! (full_word_count + 1))) of
                    (Some full, Some pending_word, Some pending_length) \<Rightarrow>
                      (case to_bytes_be pending_length pending_word of
                         None \<Rightarrow> None
                       | Some pending \<Rightarrow> Some (full @ pending))
                  | _ \<Rightarrow> None)))"

subsection \<open>The words of \<open>encode_bytearray\<close>, named\<close>

text \<open>
  The word appended by iteration \<open>i\<close> of the loop, and the word appended for the pending
  octets by the final \<^verbatim>\<open>if\<close>.
\<close>

definition full_word :: "py_bytes \<Rightarrow> nat \<Rightarrow> py_str" where
  "full_word b i = py_lit ''0x'' @ bytes_hex (py_slice b (i * 31) ((i + 1) * 31))"

definition pending_word :: "py_bytes \<Rightarrow> py_str" where
  "pending_word b =
     (if length b mod 31 > 0 then py_lit ''0x'' @ bytes_hex (drop (length b div 31 * 31) b)
      else py_lit ''0'')"

subsection \<open>The defaults of \<^verbatim>\<open>main\<close>\<close>

text \<open>
  The configuration \<^verbatim>\<open>main\<close> builds when the script is run without arguments: the
  \<^verbatim>\<open>argparse\<close> defaults, \<^verbatim>\<open>unique = not args.no_unique\<close>.
\<close>

definition main_defaults :: DeploymentConfig where
  "main_defaults =
     \<lparr> name = py_lit ''ProvableGameToken'',
       symbol = py_lit ''PGT'',
       base_uri = py_lit ''https://api.provable.games/token/'',
       royalty_receiver =
         py_lit ''0x127fd5f1fe78a71f8bcd1fec63e3fe2f0486b6ecd5c86a0466c3a21fa5cfcec'',
       royalty_fraction = 500,
       game_registry_address =
         Some (py_lit ''0x00348dafbd271cc82bfc57e3edd3a7b3163008f53c586e31d822862b72e1a663''),
       event_relayer_address = None,
       class_hash =
         py_lit ''0x075137b5c45312610d7cb6d43982e5fd5bd0df6c0b1e51518ced64a91f125e85'',
       udc_address =
         py_lit ''0x041a78e741e5af2fec34b695679bc6891742439f7afb8484ecd7766661ad02bf'',
       profile = py_lit ''default'',
       salt = 0,
       unique = True \<rparr>"

text \<open>
  The words \<open>build_constructor_calldata\<close> emits for the defaults before the optional
  addresses (those of \<open>name\<close>, \<open>symbol\<close> and \<open>base_uri\<close>, the receiver, the fraction),
  and the default registry address.
\<close>

abbreviation default_head :: "py_str list" where
  "default_head \<equiv>
     [py_lit ''0'', py_lit ''0x50726f7661626c6547616d65546f6b656e'', py_lit ''17'', py_lit ''0'', py_lit ''0x504754'', py_lit ''3'', py_lit ''1'', py_lit ''0x68747470733a2f2f6170692e70726f7661626c652e67616d65732f746f6b65'', py_lit ''0x6e2f'', py_lit ''2'', py_lit ''0x127fd5f1fe78a71f8bcd1fec63e3fe2f0486b6ecd5c86a0466c3a21fa5cfcec'', py_lit ''500'']"

abbreviation default_registry :: py_str where
  "default_registry \<equiv>
     py_lit ''0x00348dafbd271cc82bfc57e3edd3a7b3163008f53c586e31d822862b72e1a663''"

text \<open>
  A sample text of 62 octets, \<^verbatim>\<open>base_uri + name + "/ProvableGam"\<close> of the defaults, and its
  two chunks of 31 octets.
\<close>

abbreviation sample_text :: py_str where
  "sample_text \<equiv> py_lit ''https://api.provable.games/token/ProvableGameToken/ProvableGam''"

abbreviation sample_chunk0 :: py_bytes where
  "sample_chunk0 \<equiv>
     [104, 116, 116, 112, 115, 58, 47, 47, 97, 112, 105, 46, 112, 114, 111,
      118, 97, 98, 108, 101, 46, 103, 97, 109, 101, 115, 47, 116, 111, 107,
      101]"

abbreviation sample_chunk1 :: py_bytes where
  "sample_chunk1 \<equiv>
     [110, 47, 80, 114, 111, 118, 97, 98, 108, 101, 71, 97, 109, 101, 84, 111,
      107, 101, 110, 47, 80, 114, 111, 118, 97, 98, 108, 101, 71, 97, 109]"

section \<open>What the specification says of the calldata\<close>



text \<open>
  The same with presence read as the script reads it: an address that is \<^verbatim>\<open>None\<close> or the
  empty string counts as absent.
\<close>

definition optional_words :: "py_str option \<Rightarrow> py_str list" where
  "optional_words a =
     (case a of
        None \<Rightarrow> [py_lit ''1'']
      | Some v \<Rightarrow> if v = [] then [py_lit ''1''] else [py_lit ''0'', v])"

text \<open>A text without surrogate code points.\<close>

definition surrogate_free :: "py_str \<Rightarrow> bool" where
  "surrogate_free s = list_all (\<lambda>c. \<not> (0xD800 \<le> c \<and> c \<le> 0xDFFF)) s"

section \<open>The script in an interpreter state\<close>

text \<open>
  Strings, integers and \<^verbatim>\<open>bytes\<close> are immutable and stay values. What the two functions
  could read or change beyond their arguments is interpreter state: the list objects
  (\<^verbatim>\<open>[...]\<close> creates one, \<^verbatim>\<open>append\<close> and \<^verbatim>\<open>extend\<close> change one in place), the
  configuration objects (\<^verbatim>\<open>DeploymentConfig\<close> is a dataclass that is not frozen, and
  \<^verbatim>\<open>build_constructor_calldata\<close> receives a reference to one), and the interpreter-wide
  setting \<^verbatim>\<open>int_max_str_digits\<close> that \<^verbatim>\<open>str\<close> reads. Here the two functions are written once
  more, statement by statement, over that state. An address is an index into a store; a new
  list goes to the end of the list store. An exception leaves the state as it is at the
  \<^verbatim>\<open>raise\<close>.
\<close>

record interp =
  list_objs :: "py_str list list"
  config_objs :: "DeploymentConfig list"
  int_max_str_digits :: nat

definition new_list :: "py_str list \<Rightarrow> interp \<Rightarrow> nat \<times> interp" where
  "new_list xs st = (length (list_objs st), st\<lparr>list_objs := list_objs st @ [xs]\<rparr>)"

text \<open>The list at an address; the script holds no address without an object.\<close>

definition deref :: "interp \<Rightarrow> nat \<Rightarrow> py_str list" where
  "deref st a = (if a < length (list_objs st) then list_objs st ! a else [])"

definition py_append :: "nat \<Rightarrow> py_str \<Rightarrow> interp \<Rightarrow> interp" where
  "py_append a x st = st\<lparr>list_objs := (list_objs st)[a := deref st a @ [x]]\<rparr>"

definition py_extend :: "nat \<Rightarrow> nat \<Rightarrow> interp \<Rightarrow> interp" where
  "py_extend a other st = st\<lparr>list_objs := (list_objs st)[a := deref st a @ deref st other]\<rparr>"

text \<open>
  An attribute load \<^verbatim>\<open>config.x\<close> reads the configuration object at the address held in
  \<^verbatim>\<open>config\<close>, the address of an existing object; \<^verbatim>\<open>str(n)\<close> reads the limit.
\<close>

definition load_config :: "interp \<Rightarrow> nat \<Rightarrow> DeploymentConfig" where
  "load_config st c = config_objs st ! c"

definition py_str :: "int \<Rightarrow> interp \<Rightarrow> py_error + py_str" where
  "py_str i st = str_limited (int_max_str_digits st) i"

definition full_word_step_st :: "py_bytes \<Rightarrow> nat \<Rightarrow> interp \<Rightarrow> nat \<Rightarrow> interp" where
  "full_word_step_st s_bytes result st i =
     (let word_bytes = py_slice s_bytes (i * 31) ((i + 1) * 31);
          word_hex = py_lit ''0x'' @ bytes_hex word_bytes
      in py_append result word_hex st)"

definition encode_bytearray_st :: "py_str \<Rightarrow> interp \<Rightarrow> (py_error + nat) \<times> interp" where
  "encode_bytearray_st s st =
     (case utf8_encode s of
        Inl e \<Rightarrow> (Inl e, st)
      | Inr s_bytes \<Rightarrow>
          (let num_full_words = length s_bytes div 31;
               pending_len = length s_bytes mod 31;
               (result, st) = new_list [str_int (int num_full_words)] st;
               st = foldl (full_word_step_st s_bytes result) st [0..<num_full_words]
           in if pending_len > 0 then
                (let pending_bytes = drop (num_full_words * 31) s_bytes;
                     pending_hex = py_lit ''0x'' @ bytes_hex pending_bytes;
                     st = py_append result pending_hex st;
                     st = py_append result (str_int (int pending_len)) st
                 in (Inr result, st))
              else
                (let st = py_append result (py_lit ''0'') st;
                     st = py_append result (py_lit ''0'') st
                 in (Inr result, st))))"

definition build_constructor_calldata_st ::
  "nat \<Rightarrow> interp \<Rightarrow> (py_error + int \<times> nat) \<times> interp" where
  "build_constructor_calldata_st config st =
     (let (calldata, st) = new_list [] st in
      case encode_bytearray_st (name (load_config st config)) st of
        (Inl e, st) \<Rightarrow> (Inl e, st)
      | (Inr name_encoded, st) \<Rightarrow>
     (case encode_bytearray_st (symbol (load_config st config)) st of
        (Inl e, st) \<Rightarrow> (Inl e, st)
      | (Inr symbol_encoded, st) \<Rightarrow>
     (case encode_bytearray_st (base_uri (load_config st config)) st of
        (Inl e, st) \<Rightarrow> (Inl e, st)
      | (Inr base_uri_encoded, st) \<Rightarrow>
          (let st = py_extend calldata name_encoded st;
               st = py_extend calldata symbol_encoded st;
               st = py_extend calldata base_uri_encoded st;
               st = py_append calldata (royalty_receiver (load_config st config)) st
           in case py_str (royalty_fraction (load_config st config)) st of
                Inl e \<Rightarrow> (Inl e, st)
              | Inr fraction_word \<Rightarrow>
                  (let st = py_append calldata fraction_word st;
                       st =
                         (if truthy (game_registry_address (load_config st config))
                          then py_append calldata
                                 (the (game_registry_address (load_config st config)))
                                 (py_append calldata (py_lit ''0'') st)
                          else py_append calldata (py_lit ''1'') st);
                       st =
                         (if truthy (event_relayer_address (load_config st config))
                          then py_append calldata
                                 (the (event_relayer_address (load_config st config)))
                                 (py_append calldata (py_lit ''0'') st)
                          else py_append calldata (py_lit ''1'') st)
                   in (Inr (int (length (deref st calldata)), calldata), st))))))"

text \<open>
  What a caller can see of a call: the exception, or the contents of the returned list
  (with the returned count, for \<open>build_constructor_calldata\<close>).
\<close>

definition outcome_list :: "(py_error + nat) \<times> interp \<Rightarrow> py_error + py_str list" where
  "outcome_list r = (case r of (Inl e, st) \<Rightarrow> Inl e | (Inr a, st) \<Rightarrow> Inr (deref st a))"

definition outcome_calldata ::
  "(py_error + int \<times> nat) \<times> interp \<Rightarrow> py_error + int \<times> py_str list" where
  "outcome_calldata r =
     (case r of (Inl e, st) \<Rightarrow> Inl e | (Inr (n, a), st) \<Rightarrow> Inr (n, deref st a))"

text \<open>
  Two sample states: the default configuration alone under the default limit, and the same
  configuration at another address, beside another configuration and a list, under the
  same limit.
\<close>

abbreviation sample_state1 :: interp where
  "sample_state1 \<equiv>
     \<lparr>list_objs = [], config_objs = [main_defaults], int_max_str_digits = 4300\<rparr>"

abbreviation sample_state2 :: interp where
  "sample_state2 \<equiv>
     \<lparr>list_objs = [[py_lit ''0x1'']],
      config_objs = [main_defaults\<lparr>name := py_lit ''PGT''\<rparr>, main_defaults],
      int_max_str_digits = 4300\<rparr>"

section \<open>Properties of \<open>encode_bytearray\<close>\<close>

lemma foldl_full_word_step:
  "foldl (full_word_step b) r [0..<n] =
     r @ map (\<lambda>i. py_lit ''0x'' @ bytes_hex (py_slice b (i * 31) ((i + 1) * 31))) [0..<n]"
  by (induction n) (simp_all add: full_word_step_def)

lemma str_nat_0: "str_nat 0 = py_lit ''0''"
  by (simp add: str_nat.simps py_lit_def)

lemma str_int_0: "str_int 0 = py_lit ''0''"
  by (simp add: str_int_def str_nat_0)

lemma encode_bytearray_words:
  assumes "utf8_encode s = Inr b"
  shows "encode_bytearray s =
           Inr (str_int (int (length b div 31)) # map (full_word b) [0..<length b div 31]
                @ [pending_word b, str_int (int (length b mod 31))])"
  using assms
  by (simp add: encode_bytearray_def foldl_full_word_step pending_word_def full_word_def str_int_0 Let_def)

lemma encode_bytearray_error:
  "utf8_encode s = Inl e \<Longrightarrow> encode_bytearray s = Inl e"
  by (simp add: encode_bytearray_def)

lemma parse_digits_snoc:
  "parse_digits base dv acc (cs @ [c]) =
     (case parse_digits base dv acc cs of
        None \<Rightarrow> None
      | Some v \<Rightarrow> (case dv c of None \<Rightarrow> None | Some d \<Rightarrow> Some (v * base + d)))"
  by (induction cs arbitrary: acc) (simp_all split: option.splits)

lemma dec_digit_val_digit: "d < 10 \<Longrightarrow> dec_digit_val (48 + d) = Some d"
  by (simp add: dec_digit_val_def)

lemma parse_str_nat: "parse_digits 10 dec_digit_val 0 (str_nat n) = Some n"
proof (induction n rule: str_nat.induct)
  case (1 n)
  show ?case
  proof (cases "n < 10")
    case True
    then show ?thesis
      by (subst str_nat.simps) (simp add: dec_digit_val_digit)
  next
    case False
    with 1 have "parse_digits 10 dec_digit_val 0 (str_nat (n div 10)) = Some (n div 10)"
      by simp
    with False show ?thesis
      by (subst str_nat.simps) (simp add: parse_digits_snoc dec_digit_val_digit)
  qed
qed

lemma str_nat_digits: "set (str_nat n) \<subseteq> {48..57}"
proof (induction n rule: str_nat.induct)
  case (1 n)
  show ?case
  proof (cases "n < 10")
    case True
    then show ?thesis by (subst str_nat.simps) simp
  next
    case False
    with 1 have "set (str_nat (n div 10)) \<subseteq> {48..57}" by simp
    moreover have "n mod 10 < 10" by simp
    then have "48 + n mod 10 \<in> {48..57}" by (simp del: mod_less_divisor)
    ultimately show ?thesis using False
      by (subst str_nat.simps) simp
  qed
qed

lemma str_nat_not_Nil: "str_nat n \<noteq> []"
  by (subst str_nat.simps) simp

lemma str_nat_no_prefix: "take 2 (str_nat n) \<noteq> py_lit ''0x''"
proof
  assume h: "take 2 (str_nat n) = py_lit ''0x''"
  have "set (take 2 (str_nat n)) \<subseteq> set (str_nat n)" by (rule set_take_subset)
  with h have "120 \<in> set (str_nat n)" by (auto simp: py_lit_def)
  with str_nat_digits [of n] show False by auto
qed

lemma word_value_str_nat: "word_value (str_nat n) = Some n"
  by (simp add: word_value_def str_nat_no_prefix str_nat_not_Nil parse_str_nat)

lemma word_value_str_int: "word_value (str_int (int n)) = Some n"
  by (simp add: str_int_def word_value_str_nat)

lemma hex_digit_val_digit: "d < 16 \<Longrightarrow> hex_digit_val (hex_digit d) = Some d"
  by (simp add: hex_digit_val_def hex_digit_def)

lemma parse_hex_byte:
  "parse_digits 16 hex_digit_val acc (hex_byte b @ cs) =
     parse_digits 16 hex_digit_val (acc * 256 + unat b) cs"
proof -
  have lt: "unat b < 256" using unsigned_less [of b] by simp
  then have hi: "unat b div 16 < 16" by simp
  have lo: "unat b mod 16 < 16" by simp
  have "(acc * 16 + unat b div 16) * 16 + unat b mod 16 = acc * 256 + unat b"
    by simp
  then show ?thesis
    by (simp add: hex_byte_def hex_digit_val_digit [OF hi] hex_digit_val_digit [OF lo]
        ac_simps del: mod_less_divisor)
qed

lemma parse_bytes_hex:
  "parse_digits 16 hex_digit_val acc (bytes_hex bs) =
     Some (foldl (\<lambda>v b. v * 256 + unat b) acc bs)"
proof (induction bs arbitrary: acc)
  case Nil
  show ?case by (simp add: bytes_hex_def)
next
  case (Cons b bs)
  have "bytes_hex (b # bs) = hex_byte b @ bytes_hex bs" by (simp add: bytes_hex_def)
  then show ?case by (simp add: parse_hex_byte Cons.IH)
qed

lemma bytes_hex_Nil_iff: "bytes_hex bs = [] \<longleftrightarrow> bs = []"
  by (cases bs) (simp_all add: bytes_hex_def hex_byte_def)

lemma word_value_hex:
  "bs \<noteq> [] \<Longrightarrow> word_value (py_lit ''0x'' @ bytes_hex bs) = Some (be_value bs)"
  by (simp add: word_value_def py_lit_def bytes_hex_Nil_iff parse_bytes_hex be_value_def)

lemma be_value_snoc: "be_value (bs @ [b]) = be_value bs * 256 + unat b"
  by (simp add: be_value_def)

lemma be_value_bound: "be_value bs < 256 ^ length bs"
proof (induction bs rule: rev_induct)
  case Nil
  show ?case by (simp add: be_value_def)
next
  case (snoc b bs)
  have "unat b < 256" using unsigned_less [of b] by simp
  with snoc show ?case by (simp add: be_value_snoc)
qed

lemma be_octets_be_value: "be_octets (length bs) (be_value bs) = bs"
proof (induction bs rule: rev_induct)
  case Nil
  show ?case by simp
next
  case (snoc b bs)
  have lt: "unat b < 256" using unsigned_less [of b] by simp
  then have d: "(be_value bs * 256 + unat b) div 256 = be_value bs" by simp
  have m: "(be_value bs * 256 + unat b) mod 256 = unat b" using lt by simp
  show ?case by (simp add: be_value_snoc d m lt snoc.IH)
qed

lemma to_bytes_be_be_value: "to_bytes_be (length bs) (be_value bs) = Some bs"
  by (simp add: to_bytes_be_def be_value_bound be_octets_be_value)

lemma concat_slices: "concat (map (\<lambda>i. py_slice b (i * 31) ((i + 1) * 31)) [0..<n]) = take (n * 31) b"
proof (induction n)
  case 0
  show ?case by simp
next
  case (Suc n)
  have "take (n * 31 + 31) b = take (n * 31) b @ take 31 (drop (n * 31) b)"
    by (rule take_add)
  with Suc show ?case by (simp add: py_slice_def add.commute)
qed

lemma length_slice:
  assumes "i < length b div 31"
  shows "length (py_slice b (i * 31) ((i + 1) * 31)) = 31"
proof -
  from assms have "Suc i \<le> length b div 31" by simp
  then have "Suc i * 31 \<le> length b div 31 * 31" by (rule mult_le_mono1)
  also have "\<dots> \<le> length b" by simp
  finally have "i * 31 + 31 \<le> length b" by simp
  then show ?thesis by (simp add: py_slice_def)
qed

lemma word_value_full_word:
  assumes "i < length b div 31"
  shows "word_value (full_word b i) = Some (be_value (py_slice b (i * 31) ((i + 1) * 31)))"
proof -
  have "length (py_slice b (i * 31) ((i + 1) * 31)) = 31" using assms by (rule length_slice)
  then have "py_slice b (i * 31) ((i + 1) * 31) \<noteq> []" by auto
  then show ?thesis unfolding full_word_def by (rule word_value_hex)
qed

lemma decode_full_words_map:
  assumes "\<forall>i \<in> set js. i < length b div 31"
  shows "decode_full_words (map (full_word b) js) =
           Some (concat (map (\<lambda>i. py_slice b (i * 31) ((i + 1) * 31)) js))"
  using assms
proof (induction js)
  case Nil
  show ?case by simp
next
  case (Cons j js)
  then have j: "j < length b div 31" by simp
  have "to_bytes_be 31 (be_value (py_slice b (j * 31) ((j + 1) * 31))) =
          Some (py_slice b (j * 31) ((j + 1) * 31))"
    using to_bytes_be_be_value [of "py_slice b (j * 31) ((j + 1) * 31)"] length_slice [OF j]
    by simp
  with Cons show ?case by (simp add: word_value_full_word [OF j])
qed

lemma decode_full_words_prefix:
  "decode_full_words (map (full_word b) [0..<length b div 31]) = Some (take (length b div 31 * 31) b)"
proof -
  have "\<forall>i \<in> set [0..<length b div 31]. i < length b div 31" by simp
  then show ?thesis by (simp only: decode_full_words_map concat_slices)
qed

lemma length_pending: "length (drop (length b div 31 * 31) b) = length b mod 31"
  by (simp add: minus_div_mult_eq_mod)

lemma word_value_pending_word:
  "word_value (pending_word b) = Some (be_value (drop (length b div 31 * 31) b))"
proof (cases "length b mod 31 > 0")
  case True
  then have "drop (length b div 31 * 31) b \<noteq> []"
    using length_pending [of b] by auto
  then show ?thesis using True by (simp add: pending_word_def word_value_hex)
next
  case False
  then have "drop (length b div 31 * 31) b = []"
    using length_pending [of b] by auto
  moreover have "word_value (py_lit ''0'') = Some 0"
    using word_value_str_nat [of 0] by (simp add: str_nat_0)
  ultimately show ?thesis using False by (simp add: pending_word_def be_value_def)
qed

lemma decode_encoded_words:
  "decode_bytearray
     (str_int (int (length b div 31)) # map (full_word b) [0..<length b div 31]
      @ [pending_word b, str_int (int (length b mod 31))]) = Some b"
proof -
  let ?n = "length b div 31"
  let ?fw = "map (full_word b) [0..<?n]"
  let ?rest = "?fw @ [pending_word b, str_int (int (length b mod 31))]"
  have len: "length ?fw = ?n" by simp
  have a: "take ?n ?rest = ?fw" by simp
  have b: "?rest ! ?n = pending_word b"
    using nth_append_length [of ?fw "pending_word b"] by simp
  have c: "?rest ! (?n + 1) = str_int (int (length b mod 31))"
    by (simp add: nth_append)
  have d: "to_bytes_be (length b mod 31) (be_value (drop (?n * 31) b)) = Some (drop (?n * 31) b)"
    using to_bytes_be_be_value [of "drop (?n * 31) b"] by (simp only: length_pending)
  have e: "length ?rest = ?n + 2" by simp
  show ?thesis
    unfolding decode_bytearray_def
    by (simp only: list.case word_value_str_int option.case e a b c
        decode_full_words_prefix word_value_pending_word prod.case d append_take_drop_id if_False
        not_not refl)
      simp
qed

section \<open>Claims about \<open>encode_bytearray\<close>\<close>

text \<open>
  C1. For every text \<open>s\<close> with UTF-8 octets \<open>b\<close>, \<open>encode_bytearray s\<close> returns a word
  list, and decoding that list (each full word as 31 big-endian octets, then
  \<^verbatim>\<open>pending_length\<close> octets from the pending word) gives back exactly \<open>b\<close>.
\<close>

theorem encode_bytearray_roundtrip:
  assumes "utf8_encode s = Inr b"
  shows "\<exists>ws. encode_bytearray s = Inr ws \<and> decode_bytearray ws = Some b"
  using encode_bytearray_words [OF assms] decode_encoded_words [of b] by simp

theorem encode_bytearray_roundtrip_witness:
  "utf8_encode (py_lit ''ProvableGameToken/ProvableGame'' @ [0x20AC]) =
     Inr [80, 114, 111, 118, 97, 98, 108, 101, 71, 97, 109, 101, 84, 111, 107,
          101, 110, 47, 80, 114, 111, 118, 97, 98, 108, 101, 71, 97, 109, 101,
          226, 130, 172]
   \<and> (\<exists>ws. encode_bytearray (py_lit ''ProvableGameToken/ProvableGame'' @ [0x20AC]) = Inr ws \<and>
          decode_bytearray ws =
            Some [80, 114, 111, 118, 97, 98, 108, 101, 71, 97, 109, 101, 84, 111, 107,
          101, 110, 47, 80, 114, 111, 118, 97, 98, 108, 101, 71, 97, 109, 101,
          226, 130, 172])"
proof -
  have h: "utf8_encode (py_lit ''ProvableGameToken/ProvableGame'' @ [0x20AC]) =
     Inr [80, 114, 111, 118, 97, 98, 108, 101, 71, 97, 109, 101, 84, 111, 107,
          101, 110, 47, 80, 114, 111, 118, 97, 98, 108, 101, 71, 97, 109, 101,
          226, 130, 172]"
    by (simp add: py_lit_def utf8_char_def)
  from h encode_bytearray_roundtrip [OF h] show ?thesis by (rule conjI)
qed

text \<open>
  C2. For every text \<open>s\<close> with UTF-8 octets \<open>b\<close>, the word list returned by
  \<open>encode_bytearray s\<close> has exactly \<open>length b div 31 + 3\<close> words, and its first word is
  the numeral of the full-word count \<open>length b div 31\<close>: 5 words for a text of 62 or of
  65 octets, 3 words for the empty text.
\<close>

theorem encode_bytearray_length:
  assumes "utf8_encode s = Inr b"
  shows "\<exists>ws. encode_bytearray s = Inr ws \<and> length ws = length b div 31 + 3 \<and>
              hd ws = str_int (int (length b div 31))"
  using encode_bytearray_words [OF assms] by simp

theorem encode_bytearray_length_witness:
  "(utf8_encode sample_text = Inr (sample_chunk0 @ sample_chunk1) \<and>
    (\<exists>ws. encode_bytearray sample_text = Inr ws \<and> length ws = 5 \<and> hd ws = py_lit ''2'')) \<and>
   (utf8_encode (sample_text @ [0x20AC]) = Inr (sample_chunk0 @ sample_chunk1 @ [226, 130, 172]) \<and>
    (\<exists>ws. encode_bytearray (sample_text @ [0x20AC]) = Inr ws \<and> length ws = 5 \<and>
          hd ws = py_lit ''2'')) \<and>
   (utf8_encode [] = Inr [] \<and>
    (\<exists>ws. encode_bytearray [] = Inr ws \<and> length ws = 3 \<and> hd ws = py_lit ''0''))"
proof -
  have two: "str_int 2 = py_lit ''2''"
    by (simp add: str_int_def str_nat.simps py_lit_def)
  have h62: "utf8_encode sample_text = Inr (sample_chunk0 @ sample_chunk1)"
    by (simp add: py_lit_def utf8_char_def)
  have h65: "utf8_encode (sample_text @ [0x20AC]) =
               Inr (sample_chunk0 @ sample_chunk1 @ [226, 130, 172])"
    by (simp add: py_lit_def utf8_char_def)
  have h0: "utf8_encode [] = Inr []" by simp
  from encode_bytearray_length [OF h62] have
    a: "\<exists>ws. encode_bytearray sample_text = Inr ws \<and> length ws = 5 \<and> hd ws = py_lit ''2''"
    by (simp add: two)
  from encode_bytearray_length [OF h65] have
    b: "\<exists>ws. encode_bytearray (sample_text @ [0x20AC]) = Inr ws \<and> length ws = 5 \<and>
          hd ws = py_lit ''2''"
    by (simp add: two)
  from encode_bytearray_length [OF h0] have
    c: "\<exists>ws. encode_bytearray [] = Inr ws \<and> length ws = 3 \<and> hd ws = py_lit ''0''"
    by (simp add: str_int_0)
  from h62 a h65 b h0 c show ?thesis by (intro conjI)
qed

text \<open>
  C4. For every text \<open>s\<close> with UTF-8 octets \<open>b\<close> of length \<open>n\<close>, the returned list
  follows the chunking rule: the first word denotes \<open>n div 31\<close>, the last \<open>n mod 31\<close>
  (so that \<open>n div 31 * 31 + n mod 31 = n\<close>); the \<open>i\<close>-th full word denotes the big-endian
  value of the 31 octets of \<open>b\<close> from position \<open>31 * i\<close> on; the pending word denotes the
  big-endian value of the trailing \<open>n mod 31\<close> octets, which is 0 when there are none. The
  witness has two full words and three pending octets, and two full words and none.
\<close>

theorem encode_bytearray_chunking:
  assumes "utf8_encode s = Inr b"
  shows "\<exists>ws. encode_bytearray s = Inr ws \<and>
           length ws = length b div 31 + 3 \<and>
           length b div 31 * 31 + length b mod 31 = length b \<and>
           word_value (ws ! 0) = Some (length b div 31) \<and>
           (\<forall>i < length b div 31.
              word_value (ws ! (i + 1)) = Some (be_value (take 31 (drop (31 * i) b)))) \<and>
           word_value (ws ! (length b div 31 + 1)) =
             Some (be_value (drop (length b - length b mod 31) b)) \<and>
           (length b mod 31 = 0 \<longrightarrow> word_value (ws ! (length b div 31 + 1)) = Some 0) \<and>
           word_value (ws ! (length b div 31 + 2)) = Some (length b mod 31)"
proof -
  let ?n = "length b div 31"
  let ?fw = "map (full_word b) [0..<?n]"
  let ?ws = "str_int (int ?n) # ?fw @ [pending_word b, str_int (int (length b mod 31))]"
  have len: "length ?fw = ?n" by simp
  have e: "encode_bytearray s = Inr ?ws" using assms by (rule encode_bytearray_words)
  have l: "length ?ws = ?n + 3" by simp
  have w0: "word_value (?ws ! 0) = Some ?n" by (simp add: word_value_str_int)
  have wi: "word_value (?ws ! (i + 1)) = Some (be_value (take 31 (drop (31 * i) b)))"
    if "i < ?n" for i
  proof -
    have "?ws ! (i + 1) = full_word b i" using that by (simp add: nth_append)
    moreover have "py_slice b (i * 31) ((i + 1) * 31) = take 31 (drop (31 * i) b)"
      by (simp add: py_slice_def mult.commute)
    ultimately show ?thesis using word_value_full_word [OF that] by simp
  qed
  have off: "length b - length b mod 31 = ?n * 31"
    by (simp add: minus_mod_eq_div_mult)
  have p: "?ws ! (?n + 1) = pending_word b"
    using nth_append_length [of ?fw "pending_word b"] by simp
  have wp: "word_value (?ws ! (?n + 1)) = Some (be_value (drop (length b - length b mod 31) b))"
    by (simp only: p off word_value_pending_word)
  have wz: "word_value (?ws ! (?n + 1)) = Some 0" if "length b mod 31 = 0"
  proof -
    have "drop (?n * 31) b = []" using that length_pending [of b] by simp
    then show ?thesis by (simp only: p word_value_pending_word) (simp add: be_value_def)
  qed
  have wl: "word_value (?ws ! (?n + 2)) = Some (length b mod 31)"
    by (simp add: nth_append word_value_str_int)
  have inv: "?n * 31 + length b mod 31 = length b" by simp
  show ?thesis
    apply (rule exI [of _ ?ws])
    apply (intro conjI allI impI)
           apply (rule e)
          apply (rule l)
         apply (rule inv)
        apply (rule w0)
       apply (erule wi)
      apply (rule wp)
     apply (erule wz)
    apply (rule wl)
    done
qed

theorem encode_bytearray_chunking_witness:
  "(utf8_encode (sample_text @ [0x20AC]) = Inr (sample_chunk0 @ sample_chunk1 @ [226, 130, 172]) \<and>
    (\<exists>ws. encode_bytearray (sample_text @ [0x20AC]) = Inr ws \<and>
       length ws = 5 \<and>
       word_value (ws ! 0) = Some 2 \<and>
       word_value (ws ! 1) = Some (be_value sample_chunk0) \<and>
       word_value (ws ! 2) = Some (be_value sample_chunk1) \<and>
       word_value (ws ! 3) = Some (be_value [226, 130, 172]) \<and>
       word_value (ws ! 4) = Some 3)) \<and>
   (utf8_encode sample_text = Inr (sample_chunk0 @ sample_chunk1) \<and>
    (\<exists>ws. encode_bytearray sample_text = Inr ws \<and>
       length ws = 5 \<and>
       word_value (ws ! 0) = Some 2 \<and>
       word_value (ws ! 3) = Some 0 \<and>
       word_value (ws ! 4) = Some 0))"
proof (rule conjI)
  let ?B = "sample_chunk0 @ sample_chunk1 @ [226, 130, 172]"
  have h: "utf8_encode (sample_text @ [0x20AC]) = Inr ?B"
    by (simp add: py_lit_def utf8_char_def)
  have n: "length ?B div 31 = 2" and m: "length ?B mod 31 = 3" by simp_all
  have lt0: "(0::nat) < length ?B div 31" and lt1: "(1::nat) < length ?B div 31" by simp_all
  have c0: "take 31 (drop (31 * 0) ?B) = sample_chunk0" by simp
  have c1: "take 31 (drop (31 * 1) ?B) = sample_chunk1" by simp
  have p: "drop (length ?B - 3) ?B = [226, 130, 172]" by simp
  have ar: "(2::nat) + 3 = 5" "(0::nat) + 1 = 1" "(1::nat) + 1 = 2" "(2::nat) + 1 = 3"
    "(2::nat) + 2 = 4" by simp_all
  from encode_bytearray_chunking [OF h] obtain ws where
    e: "encode_bytearray (sample_text @ [0x20AC]) = Inr ws" and
    l: "length ws = length ?B div 31 + 3" and
    w0: "word_value (ws ! 0) = Some (length ?B div 31)" and
    wi: "\<forall>i < length ?B div 31.
           word_value (ws ! (i + 1)) = Some (be_value (take 31 (drop (31 * i) ?B)))" and
    wp: "word_value (ws ! (length ?B div 31 + 1)) =
           Some (be_value (drop (length ?B - length ?B mod 31) ?B))" and
    wl: "word_value (ws ! (length ?B div 31 + 2)) = Some (length ?B mod 31)"
    by (elim exE conjE)
  from l have l': "length ws = 5" by (simp only: n ar)
  from w0 have w0': "word_value (ws ! 0) = Some 2" by (simp only: n)
  from wi lt0 have "word_value (ws ! (0 + 1)) = Some (be_value (take 31 (drop (31 * 0) ?B)))"
    by blast
  then have w1: "word_value (ws ! 1) = Some (be_value sample_chunk0)" by (simp only: ar c0)
  from wi lt1 have "word_value (ws ! (1 + 1)) = Some (be_value (take 31 (drop (31 * 1) ?B)))"
    by blast
  then have w2: "word_value (ws ! 2) = Some (be_value sample_chunk1)" by (simp only: ar c1)
  from wp have w3: "word_value (ws ! 3) = Some (be_value [226, 130, 172])"
    by (simp only: n m ar p)
  from wl have w4: "word_value (ws ! 4) = Some 3" by (simp only: n m ar)
  from h e l' w0' w1 w2 w3 w4
  show "utf8_encode (sample_text @ [0x20AC]) = Inr ?B \<and>
    (\<exists>ws. encode_bytearray (sample_text @ [0x20AC]) = Inr ws \<and>
       length ws = 5 \<and>
       word_value (ws ! 0) = Some 2 \<and>
       word_value (ws ! 1) = Some (be_value sample_chunk0) \<and>
       word_value (ws ! 2) = Some (be_value sample_chunk1) \<and>
       word_value (ws ! 3) = Some (be_value [226, 130, 172]) \<and>
       word_value (ws ! 4) = Some 3)"
    by (intro conjI exI [of _ ws])
next
  let ?B = "sample_chunk0 @ sample_chunk1"
  have h: "utf8_encode sample_text = Inr ?B"
    by (simp add: py_lit_def utf8_char_def)
  have n: "length ?B div 31 = 2" and m: "length ?B mod 31 = 0" by simp_all
  have ar: "(2::nat) + 3 = 5" "(2::nat) + 1 = 3" "(2::nat) + 2 = 4" by simp_all
  from encode_bytearray_chunking [OF h] obtain ws where
    e: "encode_bytearray sample_text = Inr ws" and
    l: "length ws = length ?B div 31 + 3" and
    w0: "word_value (ws ! 0) = Some (length ?B div 31)" and
    wz: "length ?B mod 31 = 0 \<longrightarrow> word_value (ws ! (length ?B div 31 + 1)) = Some 0" and
    wl: "word_value (ws ! (length ?B div 31 + 2)) = Some (length ?B mod 31)"
    by (elim exE conjE)
  from l have l': "length ws = 5" by (simp only: n ar)
  from w0 have w0': "word_value (ws ! 0) = Some 2" by (simp only: n)
  from wz have w3: "word_value (ws ! 3) = Some 0" by (simp only: n m ar simp_thms)
  from wl have w4: "word_value (ws ! 4) = Some 0" by (simp only: n m ar)
  from h e l' w0' w3 w4
  show "utf8_encode sample_text = Inr ?B \<and>
    (\<exists>ws. encode_bytearray sample_text = Inr ws \<and>
       length ws = 5 \<and>
       word_value (ws ! 0) = Some 2 \<and>
       word_value (ws ! 3) = Some 0 \<and>
       word_value (ws ! 4) = Some 0)"
    by (intro conjI exI [of _ ws])
qed

lemma str_int_1: "str_int 1 = py_lit ''1''"
  by (simp add: str_int_def str_nat.simps py_lit_def)

lemma encode_bytearray_empty: "encode_bytearray [] = Inr [py_lit ''0'', py_lit ''0'', py_lit ''0'']"
  by (simp add: encode_bytearray_def str_int_0)

text \<open>
  C3, as stated, asks for the pending word \<^verbatim>\<open>"0x0"\<close> when no octets are pending. The
  \<^verbatim>\<open>else\<close> branch appends the literal \<^verbatim>\<open>'0'\<close> twice, so the empty text is serialized as
  \<^verbatim>\<open>["0", "0", "0"]\<close>, not \<^verbatim>\<open>["0", "0x0", "0"]\<close>.
\<close>

theorem encode_bytearray_empty_counterexample:
  "encode_bytearray [] \<noteq> Inr [py_lit ''0'', py_lit ''0x0'', py_lit ''0'']"
  by (simp add: encode_bytearray_empty) (simp add: py_lit_def)

text \<open>
  C3, amended. For every text whose UTF-8 length is a multiple of 31, the returned list ends
  with the two words \<^verbatim>\<open>"0"\<close>, \<^verbatim>\<open>"0"\<close>; a 31-octet text is serialized as
  \<^verbatim>\<open>["1", "0x" + hex, "0", "0"]\<close>, and the empty text as \<^verbatim>\<open>["0", "0", "0"]\<close>.
\<close>

theorem encode_bytearray_no_pending:
  assumes "utf8_encode s = Inr b" and "length b mod 31 = 0"
  shows "\<exists>ws. encode_bytearray s = Inr ws \<and>
           drop (length ws - 2) ws = [py_lit ''0'', py_lit ''0''] \<and>
           (length b = 31 \<longrightarrow>
              ws = [py_lit ''1'', py_lit ''0x'' @ bytes_hex b, py_lit ''0'', py_lit ''0'']) \<and>
           encode_bytearray [] = Inr [py_lit ''0'', py_lit ''0'', py_lit ''0'']"
proof -
  let ?n = "length b div 31"
  let ?fw = "map (full_word b) [0..<?n]"
  let ?ws = "str_int (int ?n) # ?fw @ [py_lit ''0'', py_lit ''0'']"
  have p: "pending_word b = py_lit ''0''" using assms(2) by (simp add: pending_word_def)
  have e: "encode_bytearray s = Inr ?ws"
    using encode_bytearray_words [OF assms(1)] by (simp add: p assms(2) str_int_0)
  have "length ?ws - 2 = Suc ?n" by simp
  then have d: "drop (length ?ws - 2) ?ws = [py_lit ''0'', py_lit ''0'']"
    by (simp only: drop_Suc_Cons) simp
  have f: "?ws = [py_lit ''1'', py_lit ''0x'' @ bytes_hex b, py_lit ''0'', py_lit ''0'']"
    if "length b = 31"
  proof -
    from that have n: "?n = 1" by simp
    have "py_slice b (0 * 31) ((0 + 1) * 31) = b" using that by (simp add: py_slice_def)
    then have "full_word b 0 = py_lit ''0x'' @ bytes_hex b" by (simp add: full_word_def)
    then show ?thesis by (simp add: n str_int_1)
  qed
  show ?thesis
    apply (rule exI [of _ ?ws])
    apply (intro conjI impI)
       apply (rule e)
      apply (rule d)
     apply (erule f)
    apply (rule encode_bytearray_empty)
    done
qed

theorem encode_bytearray_no_pending_witness:
  "utf8_encode (py_lit ''https://api.provable.games/toke'') = Inr [104, 116, 116, 112, 115, 58, 47, 47, 97, 112, 105, 46, 112, 114, 111,
          118, 97, 98, 108, 101, 46, 103, 97, 109, 101, 115, 47, 116, 111, 107,
          101] \<and>
   length ([104, 116, 116, 112, 115, 58, 47, 47, 97, 112, 105, 46, 112, 114, 111,
          118, 97, 98, 108, 101, 46, 103, 97, 109, 101, 115, 47, 116, 111, 107,
          101] :: py_bytes) mod 31 = 0 \<and>
   encode_bytearray (py_lit ''https://api.provable.games/toke'') =
     Inr [py_lit ''1'', py_lit ''0x68747470733a2f2f6170692e70726f7661626c652e67616d65732f746f6b65'', py_lit ''0'', py_lit ''0'']"
proof -
  let ?B = "[104, 116, 116, 112, 115, 58, 47, 47, 97, 112, 105, 46, 112, 114, 111,
          118, 97, 98, 108, 101, 46, 103, 97, 109, 101, 115, 47, 116, 111, 107,
          101] :: py_bytes"
  have h: "utf8_encode (py_lit ''https://api.provable.games/toke'') = Inr ?B"
    by (simp add: py_lit_def utf8_char_def)
  have m: "length ?B mod 31 = 0" by simp
  have l: "length ?B = 31" by simp
  have x: "py_lit ''0x'' @ bytes_hex ?B = py_lit ''0x68747470733a2f2f6170692e70726f7661626c652e67616d65732f746f6b65''"
    by (simp add: py_lit_def bytes_hex_def hex_byte_def hex_digit_def)
  from encode_bytearray_no_pending [OF h m] obtain ws where
    e: "encode_bytearray (py_lit ''https://api.provable.games/toke'') = Inr ws" and
    f: "length ?B = 31 \<longrightarrow> ws = [py_lit ''1'', py_lit ''0x'' @ bytes_hex ?B, py_lit ''0'', py_lit ''0'']"
    by (elim exE conjE)
  from f l have "ws = [py_lit ''1'', py_lit ''0x'' @ bytes_hex ?B, py_lit ''0'', py_lit ''0'']"
    by (rule mp)
  with e have "encode_bytearray (py_lit ''https://api.provable.games/toke'') = Inr [py_lit ''1'', py_lit ''0x68747470733a2f2f6170692e70726f7661626c652e67616d65732f746f6b65'', py_lit ''0'', py_lit ''0'']"
    by (simp only: x)
  with h m show ?thesis by (intro conjI)
qed

section \<open>Properties of \<open>build_constructor_calldata\<close>\<close>

lemma build_constructor_calldata_words:
  assumes "encode_bytearray (name config) = Inr a"
    and "encode_bytearray (symbol config) = Inr b"
    and "encode_bytearray (base_uri config) = Inr c"
  shows "build_constructor_calldata config =
           Inr (int (length (a @ b @ c @ [royalty_receiver config]
                             @ [str_int (royalty_fraction config)]
                             @ optional_words (game_registry_address config)
                             @ optional_words (event_relayer_address config))),
                a @ b @ c @ [royalty_receiver config] @ [str_int (royalty_fraction config)]
                @ optional_words (game_registry_address config)
                @ optional_words (event_relayer_address config))"
  by (simp add: build_constructor_calldata_def assms Let_def truthy_def optional_words_def
      split: option.splits)

lemma build_constructor_calldata_error:
  "build_constructor_calldata config = Inl e \<longleftrightarrow>
     encode_bytearray (name config) = Inl e \<or>
     (\<exists>a. encode_bytearray (name config) = Inr a) \<and> encode_bytearray (symbol config) = Inl e \<or>
     (\<exists>a. encode_bytearray (name config) = Inr a) \<and> (\<exists>b. encode_bytearray (symbol config) = Inr b) \<and>
       encode_bytearray (base_uri config) = Inl e"
  by (simp add: build_constructor_calldata_def Let_def split: sum.splits)

lemma build_constructor_calldata_Inr:
  assumes "build_constructor_calldata config = Inr (n, ws)"
  shows "\<exists>a b c. encode_bytearray (name config) = Inr a \<and>
           encode_bytearray (symbol config) = Inr b \<and>
           encode_bytearray (base_uri config) = Inr c \<and>
           ws = a @ b @ c @ [royalty_receiver config] @ [str_int (royalty_fraction config)]
                @ optional_words (game_registry_address config)
                @ optional_words (event_relayer_address config) \<and>
           n = int (length ws)"
proof -
  from assms obtain a where a: "encode_bytearray (name config) = Inr a"
    by (cases "encode_bytearray (name config)") (simp_all add: build_constructor_calldata_def)
  from assms a obtain b where b: "encode_bytearray (symbol config) = Inr b"
    by (cases "encode_bytearray (symbol config)") (simp_all add: build_constructor_calldata_def)
  from assms a b obtain c where c: "encode_bytearray (base_uri config) = Inr c"
    by (cases "encode_bytearray (base_uri config)") (simp_all add: build_constructor_calldata_def)
  let ?W = "a @ b @ c @ [royalty_receiver config] @ [str_int (royalty_fraction config)]
            @ optional_words (game_registry_address config)
            @ optional_words (event_relayer_address config)"
  have "build_constructor_calldata config = Inr (int (length ?W), ?W)"
    by (rule build_constructor_calldata_words [OF a b c])
  with assms have "Inr (n, ws) = (Inr (int (length ?W), ?W) :: py_error + int \<times> py_str list)"
    by (simp only:)
  then have w: "ws = ?W" and "n = int (length ?W)" by (simp_all only: sum.inject prod.inject)
  then have n: "n = int (length ws)" by (simp only:)
  from a b c w n show ?thesis by (intro exI conjI)
qed

lemma encode_name_default:
  "encode_bytearray (py_lit ''ProvableGameToken'') =
     Inr [py_lit ''0'', py_lit ''0x50726f7661626c6547616d65546f6b656e'', py_lit ''17'']"
  by (simp add: encode_bytearray_def utf8_char_def py_lit_def bytes_hex_def hex_byte_def
      hex_digit_def str_int_def str_nat.simps)

lemma encode_symbol_default:
  "encode_bytearray (py_lit ''PGT'') = Inr [py_lit ''0'', py_lit ''0x504754'', py_lit ''3'']"
  by (simp add: encode_bytearray_def utf8_char_def py_lit_def bytes_hex_def hex_byte_def
      hex_digit_def str_int_def str_nat.simps)

lemma encode_base_uri_default:
  "encode_bytearray (py_lit ''https://api.provable.games/token/'') =
     Inr [py_lit ''1'', py_lit ''0x68747470733a2f2f6170692e70726f7661626c652e67616d65732f746f6b65'', py_lit ''0x6e2f'', py_lit ''2'']"
  by (simp add: encode_bytearray_def utf8_char_def py_lit_def bytes_hex_def hex_byte_def
      hex_digit_def str_int_def str_nat.simps full_word_step_def py_slice_def)

subsection \<open>The script's defaults, evaluated\<close>

lemma py_lit_eq_Nil: "py_lit cs = [] \<longleftrightarrow> cs = []"
  by (simp add: py_lit_def)

lemma str_int_500: "str_int 500 = py_lit ''500''"
  by (simp add: str_int_def str_nat.simps py_lit_def)


lemma encode_defaults:
  "encode_bytearray (name main_defaults) = Inr [py_lit ''0'', py_lit ''0x50726f7661626c6547616d65546f6b656e'', py_lit ''17'']"
  "encode_bytearray (symbol main_defaults) = Inr [py_lit ''0'', py_lit ''0x504754'', py_lit ''3'']"
  "encode_bytearray (base_uri main_defaults) = Inr [py_lit ''1'', py_lit ''0x68747470733a2f2f6170692e70726f7661626c652e67616d65732f746f6b65'', py_lit ''0x6e2f'', py_lit ''2'']"
  by (simp_all add: main_defaults_def encode_name_default encode_symbol_default
      encode_base_uri_default)

lemma build_constructor_calldata_defaults:
  "build_constructor_calldata main_defaults =
     Inr (15, default_head @ [py_lit ''0'', default_registry, py_lit ''1''])"
  using build_constructor_calldata_words [OF encode_defaults]
  by (simp add: main_defaults_def optional_words_def py_lit_eq_Nil str_int_500)

lemma build_constructor_calldata_no_registry:
  "build_constructor_calldata (main_defaults\<lparr>game_registry_address := None\<rparr>) =
     Inr (14, default_head @ [py_lit ''1'', py_lit ''1''])"
  using build_constructor_calldata_words
    [of "main_defaults\<lparr>game_registry_address := None\<rparr>", simplified, OF encode_defaults]
  by (simp add: main_defaults_def optional_words_def py_lit_eq_Nil str_int_500)



lemma build_constructor_calldata_empty_both:
  "build_constructor_calldata
     (main_defaults\<lparr>game_registry_address := Some [], event_relayer_address := Some []\<rparr>) =
     Inr (14, default_head @ [py_lit ''1'', py_lit ''1''])"
  using build_constructor_calldata_words
    [of "main_defaults\<lparr>game_registry_address := Some [], event_relayer_address := Some []\<rparr>",
     simplified, OF encode_defaults]
  by (simp add: main_defaults_def optional_words_def py_lit_eq_Nil str_int_500)

section \<open>Claims about \<open>build_constructor_calldata\<close> and the envelope\<close>




text \<open>
  C6. Whatever the configuration, the count returned by \<open>build_constructor_calldata\<close> is the
  number of words in the returned list.
\<close>

theorem build_constructor_calldata_count:
  assumes "build_constructor_calldata config = Inr (n, ws)"
  shows "n = int (length ws)"
  using build_constructor_calldata_Inr [OF assms] by (elim exE conjE)

theorem build_constructor_calldata_count_witness:
  "build_constructor_calldata main_defaults =
     Inr (15, default_head @ [py_lit ''0'', default_registry, py_lit ''1'']) \<and>
   (15 :: int) = int (length (default_head @ [py_lit ''0'', default_registry, py_lit ''1'']))"
  using build_constructor_calldata_defaults
    build_constructor_calldata_count [OF build_constructor_calldata_defaults]
  by (rule conjI)





section \<open>Failure and success of the encoding\<close>

lemma utf8_char_total:
  assumes "\<not> (0xD800 \<le> c \<and> c \<le> 0xDFFF)"
  shows "\<exists>bs. utf8_char c = Inr bs"
  using assms by (simp add: utf8_char_def)

lemma utf8_encode_total:
  assumes "surrogate_free s"
  shows "\<exists>b. utf8_encode s = Inr b"
  using assms
proof (induction s)
  case Nil
  show ?case by simp
next
  case (Cons c cs)
  from Cons.prems have "\<not> (0xD800 \<le> c \<and> c \<le> 0xDFFF)" and "surrogate_free cs"
    by (simp_all add: surrogate_free_def)
  then obtain bs r where "utf8_char c = Inr bs" and "utf8_encode cs = Inr r"
    using utf8_char_total Cons.IH by blast
  then show ?case by simp
qed

lemma encode_bytearray_total:
  assumes "surrogate_free s"
  shows "\<exists>ws. encode_bytearray s = Inr ws"
proof -
  from utf8_encode_total [OF assms] obtain b where "utf8_encode s = Inr b" ..
  then show ?thesis using encode_bytearray_words by blast
qed

lemma encode_bytearray_surrogate: "encode_bytearray [0xDC80] = Inl UnicodeEncodeError"
  by (simp add: encode_bytearray_def utf8_char_def)

subsection \<open>The integer conversion limit\<close>

lemma str_limited_off: "str_limited 0 i = Inr (str_int i)"
  by (simp add: str_limited_def)

lemma str_limited_within:
  "max_digits = 0 \<or> decimal_digits i \<le> max_digits \<Longrightarrow> str_limited max_digits i = Inr (str_int i)"
  by (auto simp: str_limited_def)

lemma str_limited_Inr: "str_limited max_digits i = Inr w \<Longrightarrow> w = str_int i"
  by (simp add: str_limited_def split: if_splits)

lemma build_constructor_calldata_limited_eq:
  "build_constructor_calldata_limited max_digits config =
     (case build_constructor_calldata config of
        Inl e \<Rightarrow> Inl e
      | Inr r \<Rightarrow>
          (case str_limited max_digits (royalty_fraction config) of
             Inl e \<Rightarrow> Inl e
           | Inr w \<Rightarrow> Inr r))"
  by (auto simp: build_constructor_calldata_limited_def build_constructor_calldata_def Let_def
      dest: str_limited_Inr split: sum.splits)

lemma build_constructor_calldata_limited_off:
  "build_constructor_calldata_limited 0 config = build_constructor_calldata config"
  by (simp add: build_constructor_calldata_limited_eq str_limited_off split: sum.splits)

lemma build_constructor_calldata_limited_Inr:
  "build_constructor_calldata_limited max_digits config = Inr r \<Longrightarrow>
     build_constructor_calldata config = Inr r"
  by (simp add: build_constructor_calldata_limited_eq split: sum.splits)

lemma udc_calldata_limited_off: "udc_calldata_limited 0 config = udc_calldata config"
  by (simp add: udc_calldata_limited_def udc_calldata_def build_constructor_calldata_limited_off
      str_limited_off split: sum.splits)

lemma udc_calldata_limited_Inr:
  "udc_calldata_limited max_digits config = Inr ws \<Longrightarrow> udc_calldata config = Inr ws"
proof -
  assume a: "udc_calldata_limited max_digits config = Inr ws"
  then obtain n cw where b: "build_constructor_calldata_limited max_digits config = Inr (n, cw)"
    by (cases "build_constructor_calldata_limited max_digits config")
      (auto simp: udc_calldata_limited_def)
  from a b obtain sw where w: "str_limited max_digits (salt config) = Inr sw"
    by (cases "str_limited max_digits (salt config)") (auto simp: udc_calldata_limited_def)
  from w have sw: "sw = str_int (salt config)" by (rule str_limited_Inr)
  from b have "build_constructor_calldata config = Inr (n, cw)"
    by (rule build_constructor_calldata_limited_Inr)
  with a b w sw show ?thesis by (simp add: udc_calldata_limited_def udc_calldata_def)
qed

lemma str_nat_length: "10 ^ k \<le> n \<Longrightarrow> k < length (str_nat n)"
proof (induction k arbitrary: n)
  case 0
  show ?case using str_nat_not_Nil [of n] by simp
next
  case (Suc k)
  from Suc.prems have "10 * 10 ^ k \<le> n" by simp
  then have ge: "10 ^ k \<le> n div 10"
    by (simp add: less_eq_div_iff_mult_less_eq mult.commute)
  have "(1::nat) \<le> 10 ^ k" by simp
  then have "(10::nat) \<le> 10 * 10 ^ k" by simp
  from this \<open>10 * 10 ^ k \<le> n\<close> have "10 \<le> n" by (rule order_trans)
  then have big: "\<not> n < 10" by simp
  from Suc.IH [OF ge] have "k < length (str_nat (n div 10))" .
  with big show ?case by (subst str_nat.simps) simp
qed

lemma decimal_digits_power: "k < decimal_digits (10 ^ k)"
proof -
  have "nat \<bar>10 ^ k :: int\<bar> = 10 ^ k" by (simp add: nat_power_eq)
  then show ?thesis by (simp only: decimal_digits_def str_nat_length [OF order_refl])
qed

lemma str_limited_power:
  "0 < max_digits \<Longrightarrow> max_digits \<le> k \<Longrightarrow> str_limited max_digits (10 ^ k) = Inl ValueError"
  using decimal_digits_power [of k] by (simp add: str_limited_def)

lemma decimal_digits_500: "decimal_digits 500 = 3"
  by (simp add: decimal_digits_def str_nat.simps)

lemma build_constructor_calldata_limited_refuses:
  assumes "0 < max_digits" and "max_digits \<le> k"
  shows "build_constructor_calldata_limited max_digits
           (main_defaults\<lparr>royalty_fraction := 10 ^ k\<rparr>) = Inl ValueError"
proof -
  let ?c = "main_defaults\<lparr>royalty_fraction := 10 ^ k\<rparr>"
  from build_constructor_calldata_words [of ?c, simplified, OF encode_defaults]
  obtain r where "build_constructor_calldata ?c = Inr r" by blast
  moreover have "str_limited max_digits (royalty_fraction ?c) = Inl ValueError"
    using str_limited_power [OF assms] by simp
  ultimately show ?thesis by (simp add: build_constructor_calldata_limited_eq)
qed

text \<open>
  C8, as stated, lets any text value be encoded and any integer be printed. A Python string
  may hold a lone surrogate (an undecodable command-line octet \<^verbatim>\<open>0x80\<close> arrives as
  \<^verbatim>\<open>U+DC80\<close>), and on such a text \<^verbatim>\<open>s.encode('utf-8')\<close> raises: both functions fail. And
  under the default limit of 4300 digits \<^verbatim>\<open>str(config.royalty_fraction)\<close> raises for
  \<^verbatim>\<open>10 ** 4300\<close>, which has 4301.
\<close>

theorem encoding_fails_counterexample:
  "encode_bytearray [0xDC80] = Inl UnicodeEncodeError \<and>
   build_constructor_calldata_limited 4300 (main_defaults\<lparr>name := [0xDC80]\<rparr>) =
     Inl UnicodeEncodeError \<and>
   build_constructor_calldata_limited 4300 (main_defaults\<lparr>royalty_fraction := 10 ^ 4300\<rparr>) =
     Inl ValueError"
proof (intro conjI)
  show "encode_bytearray [0xDC80] = Inl UnicodeEncodeError"
    by (rule encode_bytearray_surrogate)
  show "build_constructor_calldata_limited 4300 (main_defaults\<lparr>name := [0xDC80]\<rparr>) =
     Inl UnicodeEncodeError"
    by (simp add: build_constructor_calldata_limited_def encode_bytearray_surrogate)
  show "build_constructor_calldata_limited 4300
          (main_defaults\<lparr>royalty_fraction := 10 ^ 4300\<rparr>) = Inl ValueError"
    by (rule build_constructor_calldata_limited_refuses) simp_all
qed

text \<open>
  C8, amended. On a text without surrogate code points \<open>encode_bytearray\<close> returns a word
  list. On a configuration whose three texts have none and whose \<open>royalty_fraction\<close> has
  no more decimal digits than the interpreter's limit allows (any number when the limit is
  off), \<open>build_constructor_calldata\<close> returns a count and a word list, whatever the
  addresses and the optional addresses are.
\<close>

theorem encoding_succeeds:
  assumes "surrogate_free s"
    and "surrogate_free (name config)"
    and "surrogate_free (symbol config)"
    and "surrogate_free (base_uri config)"
    and "max_digits = 0 \<or> decimal_digits (royalty_fraction config) \<le> max_digits"
  shows "(\<exists>ws. encode_bytearray s = Inr ws) \<and>
         (\<exists>n ws. build_constructor_calldata_limited max_digits config = Inr (n, ws))"
proof
  show "\<exists>ws. encode_bytearray s = Inr ws" using assms(1) by (rule encode_bytearray_total)
  obtain a b c where "encode_bytearray (name config) = Inr a"
    and "encode_bytearray (symbol config) = Inr b"
    and "encode_bytearray (base_uri config) = Inr c"
    using encode_bytearray_total [OF assms(2)] encode_bytearray_total [OF assms(3)]
      encode_bytearray_total [OF assms(4)] by (elim exE)
  from build_constructor_calldata_words [OF this]
  obtain n ws where "build_constructor_calldata config = Inr (n, ws)" by (rule that)
  then have "build_constructor_calldata_limited max_digits config = Inr (n, ws)"
    by (simp add: build_constructor_calldata_limited_eq str_limited_within [OF assms(5)])
  then show "\<exists>n ws. build_constructor_calldata_limited max_digits config = Inr (n, ws)"
    by (intro exI)
qed

theorem encoding_succeeds_witness:
  "surrogate_free (py_lit ''PGT'' @ [0x20AC, 0x1F600]) \<and>
   surrogate_free (name main_defaults) \<and>
   surrogate_free (symbol main_defaults) \<and>
   surrogate_free (base_uri main_defaults) \<and>
   ((4300 :: nat) = 0 \<or> decimal_digits (royalty_fraction main_defaults) \<le> 4300) \<and>
   (\<exists>ws. encode_bytearray (py_lit ''PGT'' @ [0x20AC, 0x1F600]) = Inr ws) \<and>
   (\<exists>n ws. build_constructor_calldata_limited 4300 main_defaults = Inr (n, ws))"
proof -
  have s: "surrogate_free (py_lit ''PGT'' @ [0x20AC, 0x1F600])"
    by (simp add: surrogate_free_def py_lit_def)
  have n: "surrogate_free (name main_defaults)"
    and y: "surrogate_free (symbol main_defaults)"
    and u: "surrogate_free (base_uri main_defaults)"
    by (simp_all add: surrogate_free_def main_defaults_def py_lit_def)
  have d: "(4300 :: nat) = 0 \<or> decimal_digits (royalty_fraction main_defaults) \<le> 4300"
    by (simp add: main_defaults_def decimal_digits_500)
  from encoding_succeeds [OF s n y u d] s n y u d show ?thesis by (intro conjI) simp_all
qed

section \<open>The interpreter-state model agrees with the functions\<close>

lemma py_append_at:
  "py_append (length h) x (st\<lparr>list_objs := h @ xs # rest\<rparr>) =
     st\<lparr>list_objs := h @ (xs @ [x]) # rest\<rparr>"
  by (simp add: py_append_def deref_def list_update_append nth_append)

lemma py_extend_at0:
  "py_extend (length h) (Suc (length h)) (st\<lparr>list_objs := h @ xs # r0 # rest\<rparr>) =
     st\<lparr>list_objs := h @ (xs @ r0) # r0 # rest\<rparr>"
  by (simp add: py_extend_def deref_def list_update_append nth_append)

lemma py_extend_at1:
  "py_extend (length h) (Suc (Suc (length h))) (st\<lparr>list_objs := h @ xs # r0 # r1 # rest\<rparr>) =
     st\<lparr>list_objs := h @ (xs @ r1) # r0 # r1 # rest\<rparr>"
  by (simp add: py_extend_def deref_def list_update_append nth_append)

lemma py_extend_at2:
  "py_extend (length h) (Suc (Suc (Suc (length h))))
     (st\<lparr>list_objs := h @ xs # r0 # r1 # r2 # rest\<rparr>) =
     st\<lparr>list_objs := h @ (xs @ r2) # r0 # r1 # r2 # rest\<rparr>"
  by (simp add: py_extend_def deref_def list_update_append nth_append)

lemma deref_at: "deref (st\<lparr>list_objs := h @ xs # rest\<rparr>) (length h) = xs"
  by (simp add: deref_def)

lemma foldl_full_word_step_st:
  "foldl (full_word_step_st b (length h)) (st\<lparr>list_objs := h @ [r]\<rparr>) js =
     st\<lparr>list_objs := h @ [foldl (full_word_step b) r js]\<rparr>"
  by (induction js arbitrary: r)
    (simp_all add: full_word_step_st_def full_word_step_def py_append_at Let_def)

lemma encode_bytearray_st_eq:
  "encode_bytearray_st s st =
     (case encode_bytearray s of
        Inl e \<Rightarrow> (Inl e, st)
      | Inr ws \<Rightarrow> (Inr (length (list_objs st)), st\<lparr>list_objs := list_objs st @ [ws]\<rparr>))"
  by (simp add: encode_bytearray_st_def encode_bytearray_def new_list_def Let_def
      foldl_full_word_step_st py_append_at split: sum.splits)

lemma load_config_lists [simp]: "load_config (st\<lparr>list_objs := h\<rparr>) c = load_config st c"
  by (simp add: load_config_def)

lemma py_str_lists [simp]: "py_str i (st\<lparr>list_objs := h\<rparr>) = py_str i st"
  by (simp add: py_str_def)

lemma build_constructor_calldata_limited_words:
  assumes "encode_bytearray (name config) = Inr a"
    and "encode_bytearray (symbol config) = Inr b"
    and "encode_bytearray (base_uri config) = Inr d"
    and "str_limited max_digits (royalty_fraction config) = Inr w"
  shows "build_constructor_calldata_limited max_digits config =
           Inr (int (length (a @ b @ d @ [royalty_receiver config] @ [w]
                             @ optional_words (game_registry_address config)
                             @ optional_words (event_relayer_address config))),
                a @ b @ d @ [royalty_receiver config] @ [w]
                @ optional_words (game_registry_address config)
                @ optional_words (event_relayer_address config))"
  by (simp add: build_constructor_calldata_limited_def assms Let_def truthy_def
      optional_words_def split: option.splits)

lemma build_constructor_calldata_st_Inr:
  assumes "encode_bytearray (name (load_config st c)) = Inr a"
    and "encode_bytearray (symbol (load_config st c)) = Inr b"
    and "encode_bytearray (base_uri (load_config st c)) = Inr d"
    and "py_str (royalty_fraction (load_config st c)) st = Inr w"
  shows "build_constructor_calldata_st c st =
           (Inr (int (length (a @ b @ d @ [royalty_receiver (load_config st c)] @ [w]
                              @ optional_words (game_registry_address (load_config st c))
                              @ optional_words (event_relayer_address (load_config st c)))),
                 length (list_objs st)),
            st\<lparr>list_objs := list_objs st @
               [a @ b @ d @ [royalty_receiver (load_config st c)] @ [w]
                @ optional_words (game_registry_address (load_config st c))
                @ optional_words (event_relayer_address (load_config st c)), a, b, d]\<rparr>)"
proof -
  let ?h = "list_objs st"
  have e1: "encode_bytearray_st (name (load_config st c)) (st\<lparr>list_objs := ?h @ [[]]\<rparr>) =
              (Inr (Suc (length ?h)), st\<lparr>list_objs := ?h @ [[], a]\<rparr>)"
    by (simp add: encode_bytearray_st_eq assms)
  have e2: "encode_bytearray_st (symbol (load_config st c)) (st\<lparr>list_objs := ?h @ [[], a]\<rparr>) =
              (Inr (Suc (Suc (length ?h))), st\<lparr>list_objs := ?h @ [[], a, b]\<rparr>)"
    by (simp add: encode_bytearray_st_eq assms)
  have e3: "encode_bytearray_st (base_uri (load_config st c))
              (st\<lparr>list_objs := ?h @ [[], a, b]\<rparr>) =
              (Inr (Suc (Suc (Suc (length ?h)))), st\<lparr>list_objs := ?h @ [[], a, b, d]\<rparr>)"
    by (simp add: encode_bytearray_st_eq assms)
  show ?thesis
    by (simp add: build_constructor_calldata_st_def new_list_def e1 e2 e3 assms Let_def
        py_extend_at0 py_extend_at1 py_extend_at2 py_append_at deref_at
        truthy_def optional_words_def split: option.splits)
qed

lemma build_constructor_calldata_st_cases:
  "\<exists>g. snd (build_constructor_calldata_st c st) = st\<lparr>list_objs := list_objs st @ g\<rparr> \<and>
       outcome_calldata (build_constructor_calldata_st c st) =
         build_constructor_calldata_limited (int_max_str_digits st) (load_config st c)"
proof -
  let ?h = "list_objs st"
  let ?cfg = "load_config st c"
  let ?P = "\<lambda>g. snd (build_constructor_calldata_st c st) = st\<lparr>list_objs := ?h @ g\<rparr> \<and>
       outcome_calldata (build_constructor_calldata_st c st) =
         build_constructor_calldata_limited (int_max_str_digits st) ?cfg"
  show ?thesis
  proof (cases "encode_bytearray (name ?cfg)")
    case (Inl e)
    then have "?P [[]]"
      by (simp add: build_constructor_calldata_st_def new_list_def encode_bytearray_st_eq
          outcome_calldata_def build_constructor_calldata_limited_def)
    then show ?thesis by (rule exI)
  next
    case a: (Inr a)
    show ?thesis
    proof (cases "encode_bytearray (symbol ?cfg)")
      case (Inl e)
      with a have "?P [[], a]"
        by (simp add: build_constructor_calldata_st_def new_list_def encode_bytearray_st_eq
            outcome_calldata_def build_constructor_calldata_limited_def)
      then show ?thesis by (rule exI)
    next
      case b: (Inr b)
      show ?thesis
      proof (cases "encode_bytearray (base_uri ?cfg)")
        case (Inl e)
        with a b have "?P [[], a, b]"
          by (simp add: build_constructor_calldata_st_def new_list_def encode_bytearray_st_eq
              outcome_calldata_def build_constructor_calldata_limited_def)
        then show ?thesis by (rule exI)
      next
        case d: (Inr d)
        show ?thesis
        proof (cases "py_str (royalty_fraction ?cfg) st")
          case (Inl e)
          with a b d have "?P [a @ b @ d @ [royalty_receiver ?cfg], a, b, d]"
            by (simp add: build_constructor_calldata_st_def new_list_def encode_bytearray_st_eq
                outcome_calldata_def build_constructor_calldata_limited_def py_str_def Let_def
                py_extend_at0 py_extend_at1 py_extend_at2 py_append_at)
          then show ?thesis by (rule exI)
        next
          case w: (Inr w)
          then have w': "str_limited (int_max_str_digits st) (royalty_fraction ?cfg) = Inr w"
            by (simp add: py_str_def)
          have "?P [a @ b @ d @ [royalty_receiver ?cfg] @ [w]
                    @ optional_words (game_registry_address ?cfg)
                    @ optional_words (event_relayer_address ?cfg), a, b, d]"
            by (simp add: build_constructor_calldata_st_Inr [OF a b d w]
                build_constructor_calldata_limited_words [OF a b d w'] outcome_calldata_def
                deref_at)
          then show ?thesis by (rule exI)
        qed
      qed
    qed
  qed
qed

lemma outcome_list_encode: "outcome_list (encode_bytearray_st s st) = encode_bytearray s"
  by (simp add: encode_bytearray_st_eq outcome_list_def deref_def split: sum.splits)

lemma outcome_calldata_build:
  "outcome_calldata (build_constructor_calldata_st c st) =
     build_constructor_calldata_limited (int_max_str_digits st) (load_config st c)"
  using build_constructor_calldata_st_cases [of c st] by (elim exE conjE)

lemma state_kept_encode:
  "config_objs (snd (encode_bytearray_st s st)) = config_objs st \<and>
   int_max_str_digits (snd (encode_bytearray_st s st)) = int_max_str_digits st \<and>
   take (length (list_objs st)) (list_objs (snd (encode_bytearray_st s st))) = list_objs st"
  by (simp add: encode_bytearray_st_eq split: sum.splits)

lemma state_kept_build:
  "config_objs (snd (build_constructor_calldata_st c st)) = config_objs st \<and>
   int_max_str_digits (snd (build_constructor_calldata_st c st)) = int_max_str_digits st \<and>
   take (length (list_objs st)) (list_objs (snd (build_constructor_calldata_st c st))) =
     list_objs st"
proof -
  from build_constructor_calldata_st_cases [of c st] obtain g
    where "snd (build_constructor_calldata_st c st) = st\<lparr>list_objs := list_objs st @ g\<rparr>"
    by (elim exE conjE)
  then show ?thesis by simp
qed

lemma build_constructor_calldata_st_refuses:
  assumes "0 < max_digits" and "max_digits \<le> k"
  shows "outcome_calldata (build_constructor_calldata_st 0
           \<lparr>list_objs = [], config_objs = [main_defaults\<lparr>royalty_fraction := 10 ^ k\<rparr>],
            int_max_str_digits = max_digits\<rparr>) = Inl ValueError"
  by (simp add: outcome_calldata_build load_config_def
      build_constructor_calldata_limited_refuses [OF assms])

lemma build_constructor_calldata_st_unlimited:
  "outcome_calldata (build_constructor_calldata_st 0
     \<lparr>list_objs = [], config_objs = [main_defaults\<lparr>royalty_fraction := x\<rparr>],
      int_max_str_digits = 0\<rparr>) =
     Inr (15, [py_lit ''0'', py_lit ''0x50726f7661626c6547616d65546f6b656e'', py_lit ''17'',
               py_lit ''0'', py_lit ''0x504754'', py_lit ''3'',
               py_lit ''1'',
               py_lit ''0x68747470733a2f2f6170692e70726f7661626c652e67616d65732f746f6b65'',
               py_lit ''0x6e2f'', py_lit ''2'',
               py_lit ''0x127fd5f1fe78a71f8bcd1fec63e3fe2f0486b6ecd5c86a0466c3a21fa5cfcec'',
               str_int x, py_lit ''0'', default_registry, py_lit ''1''])"
  using build_constructor_calldata_words
    [of "main_defaults\<lparr>royalty_fraction := x\<rparr>", simplified, OF encode_defaults]
  by (simp add: outcome_calldata_build load_config_def build_constructor_calldata_limited_off
      main_defaults_def optional_words_def py_lit_eq_Nil)

text \<open>
  C9, as stated, has no state outside the return value read. \<^verbatim>\<open>str\<close> reads the
  interpreter's \<^verbatim>\<open>int_max_str_digits\<close>: on one and the same configuration, with
  \<^verbatim>\<open>royalty_fraction = 10 ** 4300\<close>, \<open>build_constructor_calldata\<close> raises under the default
  limit and returns 15 words once the limit is off (\<^verbatim>\<open>sys.set_int_max_str_digits(0)\<close>).
\<close>

theorem limit_read_counterexample:
  "outcome_calldata (build_constructor_calldata_st 0
     \<lparr>list_objs = [], config_objs = [main_defaults\<lparr>royalty_fraction := 10 ^ 4300\<rparr>],
      int_max_str_digits = 4300\<rparr>) = Inl ValueError \<and>
   outcome_calldata (build_constructor_calldata_st 0
     \<lparr>list_objs = [], config_objs = [main_defaults\<lparr>royalty_fraction := 10 ^ 4300\<rparr>],
      int_max_str_digits = 0\<rparr>) =
     Inr (15, [py_lit ''0'', py_lit ''0x50726f7661626c6547616d65546f6b656e'', py_lit ''17'',
               py_lit ''0'', py_lit ''0x504754'', py_lit ''3'',
               py_lit ''1'',
               py_lit ''0x68747470733a2f2f6170692e70726f7661626c652e67616d65732f746f6b65'',
               py_lit ''0x6e2f'', py_lit ''2'',
               py_lit ''0x127fd5f1fe78a71f8bcd1fec63e3fe2f0486b6ecd5c86a0466c3a21fa5cfcec'',
               str_int (10 ^ 4300), py_lit ''0'', default_registry, py_lit ''1''])"
proof (rule conjI)
  show "outcome_calldata (build_constructor_calldata_st 0
     \<lparr>list_objs = [], config_objs = [main_defaults\<lparr>royalty_fraction := 10 ^ 4300\<rparr>],
      int_max_str_digits = 4300\<rparr>) = Inl ValueError"
    by (rule build_constructor_calldata_st_refuses) simp_all
qed (rule build_constructor_calldata_st_unlimited)

text \<open>
  C9, amended. Both functions are deterministic and change no state that existed before the
  call: afterwards every configuration object, the limit and every list that existed are as
  they were. \<open>encode_bytearray\<close> reads nothing but its argument: in any two states its
  outcome is the same. \<open>build_constructor_calldata\<close> reads, beyond the configuration object
  it is given, only the limit: called under the same limit on configuration objects with the
  same contents, in states that may differ in everything else, it has the same outcome, the
  exception or the returned count and contents.
\<close>

theorem encoders_read_only_the_limit:
  assumes "c1 < length (config_objs st1)" and "c2 < length (config_objs st2)"
    and "config_objs st1 ! c1 = config_objs st2 ! c2"
    and "int_max_str_digits st1 = int_max_str_digits st2"
  shows "outcome_list (encode_bytearray_st s st1) = outcome_list (encode_bytearray_st s st2) \<and>
         outcome_calldata (build_constructor_calldata_st c1 st1) =
           outcome_calldata (build_constructor_calldata_st c2 st2) \<and>
         outcome_list (encode_bytearray_st s st1) = encode_bytearray s \<and>
         outcome_calldata (build_constructor_calldata_st c1 st1) =
           build_constructor_calldata_limited (int_max_str_digits st1) (config_objs st1 ! c1) \<and>
         config_objs (snd (encode_bytearray_st s st1)) = config_objs st1 \<and>
         int_max_str_digits (snd (encode_bytearray_st s st1)) = int_max_str_digits st1 \<and>
         take (length (list_objs st1)) (list_objs (snd (encode_bytearray_st s st1))) =
           list_objs st1 \<and>
         config_objs (snd (build_constructor_calldata_st c1 st1)) = config_objs st1 \<and>
         int_max_str_digits (snd (build_constructor_calldata_st c1 st1)) =
           int_max_str_digits st1 \<and>
         take (length (list_objs st1)) (list_objs (snd (build_constructor_calldata_st c1 st1))) =
           list_objs st1"
proof -
  have same: "outcome_calldata (build_constructor_calldata_st c1 st1) =
           outcome_calldata (build_constructor_calldata_st c2 st2)"
    using assms(3,4) by (simp add: outcome_calldata_build load_config_def)
  have this_one: "outcome_calldata (build_constructor_calldata_st c1 st1) =
           build_constructor_calldata_limited (int_max_str_digits st1) (config_objs st1 ! c1)"
    by (simp add: outcome_calldata_build load_config_def)
  have enc: "outcome_list (encode_bytearray_st s st1) = outcome_list (encode_bytearray_st s st2)"
    by (simp add: outcome_list_encode)
  from enc same this_one show ?thesis
    using state_kept_encode [of s st1] state_kept_build [of c1 st1]
    by (simp only: outcome_list_encode simp_thms)
qed

theorem encoders_read_only_the_limit_witness:
  "0 < length (config_objs sample_state1) \<and>
   1 < length (config_objs sample_state2) \<and>
   config_objs sample_state1 ! 0 = config_objs sample_state2 ! 1 \<and>
   int_max_str_digits sample_state1 = int_max_str_digits sample_state2 \<and>
   outcome_calldata (build_constructor_calldata_st 0 sample_state1) =
     outcome_calldata (build_constructor_calldata_st 1 sample_state2) \<and>
   outcome_calldata (build_constructor_calldata_st 0 sample_state1) =
     Inr (15, default_head @ [py_lit ''0'', default_registry, py_lit ''1'']) \<and>
   outcome_list (encode_bytearray_st (name main_defaults) sample_state1) =
     outcome_list (encode_bytearray_st (name main_defaults) sample_state2) \<and>
   config_objs (snd (build_constructor_calldata_st 0 sample_state1)) = [main_defaults] \<and>
   int_max_str_digits (snd (build_constructor_calldata_st 0 sample_state1)) = 4300"
proof -
  have h1: "0 < length (config_objs sample_state1)"
    and h2: "1 < length (config_objs sample_state2)"
    and h3: "config_objs sample_state1 ! 0 = config_objs sample_state2 ! 1"
    and h4: "int_max_str_digits sample_state1 = int_max_str_digits sample_state2"
    by simp_all
  note t = encoders_read_only_the_limit [OF h1 h2 h3 h4, of "name main_defaults"]
  have v: "build_constructor_calldata_limited 4300 main_defaults =
             Inr (15, default_head @ [py_lit ''0'', default_registry, py_lit ''1''])"
  proof -
    have "royalty_fraction main_defaults = 500" by (simp add: main_defaults_def)
    then show ?thesis
      by (simp add: build_constructor_calldata_limited_eq build_constructor_calldata_defaults
          str_limited_within decimal_digits_500)
  qed
  from t have a: "outcome_calldata (build_constructor_calldata_st 0 sample_state1) =
     outcome_calldata (build_constructor_calldata_st 1 sample_state2)" by (elim conjE)
  from t have "outcome_calldata (build_constructor_calldata_st 0 sample_state1) =
     build_constructor_calldata_limited (int_max_str_digits sample_state1)
       (config_objs sample_state1 ! 0)" by (elim conjE)
  then have b: "outcome_calldata (build_constructor_calldata_st 0 sample_state1) =
     Inr (15, default_head @ [py_lit ''0'', default_registry, py_lit ''1''])"
    using v by simp
  from t have c: "outcome_list (encode_bytearray_st (name main_defaults) sample_state1) =
     outcome_list (encode_bytearray_st (name main_defaults) sample_state2)" by (elim conjE)
  from t have "config_objs (snd (build_constructor_calldata_st 0 sample_state1)) =
     config_objs sample_state1" by (elim conjE)
  then have d: "config_objs (snd (build_constructor_calldata_st 0 sample_state1)) =
     [main_defaults]" by simp
  from t have "int_max_str_digits (snd (build_constructor_calldata_st 0 sample_state1)) =
     int_max_str_digits sample_state1" by (elim conjE)
  then have e: "int_max_str_digits (snd (build_constructor_calldata_st 0 sample_state1)) = 4300"
    by simp
  from h1 h2 h3 h4 a b c d e show ?thesis by (intro conjI)
qed

end
